theory Spec2Isabelle
  imports Main "HOL-Library.Sublist" "HOL-Library.AList"
begin

section \<open>Python strings\<close>

text \<open>
  A Python \<open>str\<close> is modelled as a \<open>string\<close> (a list of 8-bit characters). The
  string methods used by \<open>gmail_check_skill.py\<close> are written out on that type:
  \<open>lower()\<close> maps the letters A-Z to a-z and leaves every other character alone,
  \<open>strip()\<close> removes the ASCII whitespace characters from both ends, \<open>split(sep)\<close>
  cuts at every occurrence of a one-character separator, and \<open>p in s\<close> is the
  substring test. Unicode case mapping and Unicode whitespace beyond ASCII are outside
  the model.
\<close>

definition lower_char :: "char \<Rightarrow> char" where
  "lower_char c =
     (case map_of (zip ''ABCDEFGHIJKLMNOPQRSTUVWXYZ'' ''abcdefghijklmnopqrstuvwxyz'') c of
        Some d \<Rightarrow> d
      | None \<Rightarrow> c)"

definition py_lower :: "string \<Rightarrow> string" where
  "py_lower s = map lower_char s"

definition is_space :: "char \<Rightarrow> bool" where
  "is_space c = (c \<in> set [CHR 0x20, CHR 0x09, CHR 0x0A, CHR 0x0B, CHR 0x0C, CHR 0x0D,
                             CHR 0x1C, CHR 0x1D, CHR 0x1E, CHR 0x1F])"

definition py_strip :: "string \<Rightarrow> string" where
  "py_strip s = rev (dropWhile is_space (rev (dropWhile is_space s)))"

fun py_split :: "char \<Rightarrow> string \<Rightarrow> string list" where
  "py_split sep [] = [[]]"
| "py_split sep (c # cs) =
     (if c = sep then [] # py_split sep cs
      else (case py_split sep cs of
              [] \<Rightarrow> [[c]]
            | p # ps \<Rightarrow> (c # p) # ps))"

text \<open>\<open>py_in p s\<close> is Python's \<open>p in s\<close> on strings: \<open>p\<close> occurs in \<open>s\<close> at some offset.\<close>

fun py_in :: "string \<Rightarrow> string \<Rightarrow> bool" where
  "py_in p [] = (p = [])"
| "py_in p (c # cs) = (prefix p (c # cs) \<or> py_in p cs)"

section \<open>Matcher\<close>

text \<open>
  \<open>_match_sender\<close>: the \<open>From\<close> header may be absent (\<open>None\<close>); a missing or empty
  sender matches nothing. The address is the text between the first \<open><\<close> and the next
  \<open>>\<close> when both characters occur, the stripped header otherwise.
\<close>

definition match_sender :: "string option \<Rightarrow> string \<Rightarrow> bool" where
  "match_sender sender filter_sender =
     (case sender of
        None \<Rightarrow> False
      | Some s \<Rightarrow>
          if s = [] then False
          else
            let email_part =
              (if CHR ''<'' \<in> set s \<and> CHR ''>'' \<in> set s
               then py_strip (hd (py_split (CHR ''>'') (py_split (CHR ''<'') s ! 1)))
               else py_strip s)
            in py_lower email_part = py_lower filter_sender)"

text \<open>\<open>_match_subject\<close>: an empty subject returns \<open>False\<close> before any comparison.\<close>

definition match_subject :: "string \<Rightarrow> string \<Rightarrow> bool" where
  "match_subject subject subject_pattern =
     (if subject = [] then False
      else py_in (py_lower subject_pattern) (py_lower subject))"

section \<open>Values printed into messages\<close>

text \<open>\<open>str(n)\<close> on an integer, as the f-strings of \<open>execute\<close> use it.\<close>

definition digit_char :: "nat \<Rightarrow> char" where
  "digit_char n = ''0123456789'' ! (n mod 10)"

fun py_str_nat :: "nat \<Rightarrow> string" where
  "py_str_nat n =
     (if n < 10 then [digit_char n] else py_str_nat (n div 10) @ [digit_char n])"

declare py_str_nat.simps [simp del]

definition py_str_int :: "int \<Rightarrow> string" where
  "py_str_int i = (if i < 0 then CHR ''-'' # py_str_nat (nat (- i)) else py_str_nat (nat i))"

text \<open>\<open>str(x)\<close> inside an f-string when \<open>x\<close> may be \<open>None\<close>.\<close>

definition py_str_opt :: "string option \<Rightarrow> string" where
  "py_str_opt x = (case x of None \<Rightarrow> ''None'' | Some s \<Rightarrow> s)"

section \<open>Data model\<close>

text \<open>
  A Python \<open>dict\<close> keeps its keys in insertion order, and the order is observable (the
  filter loop iterates over \<open>email_filters.items()\<close>, \<open>json.dump\<close> writes the entries in
  order), so both dictionaries are association lists. \<open>k in d\<close> is
  \<open>k \<in> fst ` set d\<close>, \<open>d[k] = v\<close> is \<open>AList.update k v d\<close> (in place when the key
  exists, appended otherwise) and \<open>len(d)\<close> is \<open>length d\<close>.
\<close>

type_synonym cache = "(string \<times> string) list"

type_synonym filter_map = "(string \<times> string list) list"

text \<open>The four headers \<open>_check_emails\<close> reads; each may be absent (\<open>None\<close>).\<close>

record header =
  hdr_from :: "string option"
  hdr_subject :: "string option"
  hdr_message_id :: "string option"
  hdr_date :: "string option"

record matched_email =
  sender :: "string option"
  subject :: string
  content :: string
  date_received :: "string option"
  message_id :: "string option"
  matched_sender_filter :: "string option"
  matched_subject_filters :: "string list"
  email_id :: string

text \<open>
  Library code outside the repository is a parameter of the model: the MD5 hex digest,
  what \<open>_decode_header\<close> obtains from \<open>email.header\<close>, the ISO-8601 text of the clock
  reading, and \<open>json.load\<close> restricted to the declared type \<open>Dict[str, str]\<close>
  (\<open>None\<close> when it raises).
\<close>

record pylib =
  md5_hexdigest :: "string \<Rightarrow> string"
  decode_header :: "string \<Rightarrow> string"
  utc_isoformat :: "nat \<Rightarrow> string"
  json_loads :: "string \<Rightarrow> cache option"

text \<open>
  The mail store as one run of \<open>_check_emails\<close> sees it. \<open>login_failure\<close> is the text
  of the exception raised by \<open>IMAP4_SSL\<close>, \<open>login\<close> or \<open>select\<close>, if any;
  \<open>search_result\<close> is the exception of \<open>mail.search\<close> or the message numbers it returns
  for the run's \<open>SINCE\<close> criterion (the lookback window enters the run only there);
  \<open>fetch_header\<close> and \<open>fetch_content\<close> answer the two fetches of a message, the second
  one already passed through \<open>_extract_email_content\<close>, with \<open>None\<close> when the fetch or
  the parsing raises; \<open>close_failure\<close> is the exception of \<open>close\<close> or \<open>logout\<close>.
\<close>

record mailbox =
  login_failure :: "string option"
  search_result :: "string + nat list"
  fetch_header :: "nat \<Rightarrow> header option"
  fetch_content :: "nat \<Rightarrow> string option"
  close_failure :: "string option"

record config =
  username :: "string option"
  app_password :: "string option"
  email_filters :: "filter_map option"
  check_interval :: int
  background_mode :: bool
  max_emails :: int
  days_back :: int
  time_range_hours :: "int option"
  use_cache :: bool

record statistics =
  emails_checked :: nat
  cache_size :: nat
  filters_applied :: nat
  stat_time_range_hours :: "int option"
  cache_enabled :: bool
  search_period :: string

record check_data =
  matched_emails :: "matched_email list"
  check_time :: string
  total_matched :: nat
  data_background_mode :: bool

record monitor_ack =
  ack_check_interval :: int
  monitoring_started :: string
  ack_message :: string
  monitoring_active :: bool
  filters_count :: nat

text \<open>The three envelopes \<open>execute\<close> returns; \<open>Failure\<close> carries the message and the type.\<close>

datatype result =
    CheckSuccess (result_data: check_data) (result_statistics: statistics)
  | MonitoringStarted (result_ack: monitor_ack)
  | Failure (error_message: string) (error_type: string)

datatype ctx_value = CtxResult result | CtxText string | CtxData check_data

text \<open>The background thread as the caller's thread sees it: whether it is alive.\<close>

record thread =
  is_alive :: bool

text \<open>
  The state outside the call: the cache file (\<open>None\<close> when it does not exist) and
  whether it can be opened for writing, the clock, the execution context, and the two
  fields of the skill instance that hold the thread and the stop event.
\<close>

record world =
  cache_file :: "string option"
  cache_writable :: bool
  clock :: nat
  ctx_store :: "(string \<times> ctx_value) list"
  monitoring_thread :: "thread option"
  stop_event :: bool

section \<open>Cache\<close>

text \<open>
  \<open>json.dump(processed_emails, f, ensure_ascii=False, indent=2)\<close> on a \<open>Dict[str, str]\<close>:
  the characters below 0x20, the quote and the backslash are escaped, every entry is on
  a line of its own behind two spaces, and the empty dictionary is \<open>{}\<close>.
\<close>

definition hex_char :: "nat \<Rightarrow> char" where
  "hex_char n = ''0123456789abcdef'' ! (n mod 16)"

definition json_escape_char :: "char \<Rightarrow> string" where
  "json_escape_char c =
     (if c = CHR 0x5C then [CHR 0x5C, CHR 0x5C]
      else if c = CHR 0x22 then [CHR 0x5C, CHR 0x22]
      else if c = CHR 0x08 then [CHR 0x5C, CHR ''b'']
      else if c = CHR 0x0C then [CHR 0x5C, CHR ''f'']
      else if c = CHR 0x0A then [CHR 0x5C, CHR ''n'']
      else if c = CHR 0x0D then [CHR 0x5C, CHR ''r'']
      else if c = CHR 0x09 then [CHR 0x5C, CHR ''t'']
      else if (of_char c :: nat) < 32
        then [CHR 0x5C, CHR ''u'', CHR ''0'', CHR ''0'',
              hex_char ((of_char c :: nat) div 16), hex_char (of_char c :: nat)]
      else [c])"

definition json_string :: "string \<Rightarrow> string" where
  "json_string s = [CHR 0x22] @ concat (map json_escape_char s) @ [CHR 0x22]"

definition json_item :: "string \<times> string \<Rightarrow> string" where
  "json_item kv = ''  '' @ json_string (fst kv) @ '': '' @ json_string (snd kv)"

fun json_items :: "cache \<Rightarrow> string" where
  "json_items [] = []"
| "json_items [kv] = json_item kv"
| "json_items (kv # rest) = json_item kv @ [CHR '','', CHR 0x0A] @ json_items rest"

definition json_dumps :: "cache \<Rightarrow> string" where
  "json_dumps d =
     (if d = [] then ''{}''
      else [CHR ''{'', CHR 0x0A] @ json_items d @ [CHR 0x0A, CHR ''}''])"

text \<open>
  \<open>_load_cache\<close>: a missing file, and a file \<open>json.load\<close> raises on, give the empty
  mapping.
\<close>

definition load_cache :: "pylib \<Rightarrow> world \<Rightarrow> cache" where
  "load_cache L w =
     (case cache_file w of
        None \<Rightarrow> []
      | Some text \<Rightarrow> (case json_loads L text of None \<Rightarrow> [] | Some d \<Rightarrow> d))"

text \<open>
  \<open>_save_cache\<close>: the file is overwritten with the serialised mapping; when it cannot be
  opened for writing the exception is printed and swallowed, and the file stays as it is.
\<close>

definition save_cache :: "cache \<Rightarrow> world \<Rightarrow> world" where
  "save_cache processed_emails w =
     (if cache_writable w then w\<lparr>cache_file := Some (json_dumps processed_emails)\<rparr> else w)"

section \<open>CheckRun\<close>

text \<open>The three variables of the filter loop in \<open>_check_emails\<close>.\<close>

record filter_state =
  match_found :: bool
  matched_sender :: "string option"
  matched_subjects :: "string list"

definition init_filter_state :: filter_state where
  "init_filter_state = \<lparr>match_found = False, matched_sender = None, matched_subjects = []\<rparr>"

fun subjects_loop :: "string \<Rightarrow> string list \<Rightarrow> filter_state \<Rightarrow> filter_state" where
  "subjects_loop subj [] st = st"
| "subjects_loop subj (subject_pattern # rest) st =
     subjects_loop subj rest
       (if match_subject subj subject_pattern
        then st\<lparr>matched_subjects := matched_subjects st @ [subject_pattern], match_found := True\<rparr>
        else st)"

fun filters_loop :: "string option \<Rightarrow> string \<Rightarrow> filter_map \<Rightarrow> filter_state \<Rightarrow> filter_state" where
  "filters_loop sndr subj [] st = st"
| "filters_loop sndr subj ((filter_sender, filter_subjects) # rest) st =
     filters_loop sndr subj rest
       (if match_sender sndr filter_sender
        then subjects_loop subj filter_subjects (st\<lparr>matched_sender := Some filter_sender\<rparr>)
        else st)"

text \<open>\<open>hashlib.md5(f"{message_id}{date_received}".encode()).hexdigest()\<close>\<close>

definition fingerprint :: "pylib \<Rightarrow> header \<Rightarrow> string" where
  "fingerprint L h =
     md5_hexdigest L (py_str_opt (hdr_message_id h) @ py_str_opt (hdr_date h))"

text \<open>
  What the message loop carries from one message to the next: the result list, the cache
  mapping (mutated in place by the source) and the clock.
\<close>

record run_state =
  rs_matched :: "matched_email list"
  rs_cache :: cache
  rs_clock :: nat

text \<open>
  The body of the message loop. An exception of either fetch leaves the state as it was
  (the \<open>except\<close> branch prints and continues); the second fetch comes before the append
  and the cache insertion, so a message whose content cannot be fetched is neither
  reported nor recorded.
\<close>

definition process_message ::
  "pylib \<Rightarrow> mailbox \<Rightarrow> filter_map \<Rightarrow> bool \<Rightarrow> nat \<Rightarrow> run_state \<Rightarrow> run_state" where
  "process_message L mb filters uc num st =
     (case fetch_header mb num of
        None \<Rightarrow> st
      | Some h \<Rightarrow>
          let sndr = hdr_from h;
              subject_raw = (case hdr_subject h of None \<Rightarrow> [] | Some s \<Rightarrow> s);
              subj = (if subject_raw \<noteq> [] then decode_header L subject_raw else []);
              eid = fingerprint L h
          in if uc \<and> eid \<in> fst ` set (rs_cache st) then st
             else
               let fs = filters_loop sndr subj filters init_filter_state
               in if match_found fs then
                    (case fetch_content mb num of
                       None \<Rightarrow> st
                     | Some text \<Rightarrow>
                         st\<lparr>rs_matched := rs_matched st @
                               [\<lparr>sender = sndr, subject = subj, content = text,
                                 date_received = hdr_date h, message_id = hdr_message_id h,
                                 matched_sender_filter = matched_sender fs,
                                 matched_subject_filters = matched_subjects fs,
                                 email_id = eid\<rparr>],
                            rs_cache := AList.update eid (utc_isoformat L (rs_clock st)) (rs_cache st),
                            rs_clock := Suc (rs_clock st)\<rparr>)
                  else st)"

fun messages_loop ::
  "pylib \<Rightarrow> mailbox \<Rightarrow> filter_map \<Rightarrow> bool \<Rightarrow> nat list \<Rightarrow> run_state \<Rightarrow> run_state" where
  "messages_loop L mb filters uc [] st = st"
| "messages_loop L mb filters uc (num # rest) st =
     messages_loop L mb filters uc rest (process_message L mb filters uc num st)"

text \<open>
  \<open>message_list[-max_emails:]\<close> when the list is longer than \<open>max_emails\<close>: a slice from
  a negative index counts from the end, and \<open>-0\<close> is the index 0.
\<close>

definition limit_messages :: "nat list \<Rightarrow> int \<Rightarrow> nat list" where
  "limit_messages message_list n =
     (if int (length message_list) > n
      then (if - n < 0 then drop (nat (int (length message_list) - n)) message_list
            else drop (nat (- n)) message_list)
      else message_list)"

text \<open>The messages one run inspects, when the session and the search succeed.\<close>

definition candidates :: "mailbox \<Rightarrow> int \<Rightarrow> nat list" where
  "candidates mb n =
     (case search_result mb of Inl e \<Rightarrow> [] | Inr nums \<Rightarrow> limit_messages nums n)"

definition connection_error :: "string \<Rightarrow> string" where
  "connection_error e = ''Gmail connection error: '' @ e"

text \<open>
  \<open>_check_emails\<close> returns the raised exception's message (\<open>Inl\<close>) or the matched list
  (\<open>Inr\<close>), together with the cache mapping and the clock as the run left them: the
  mapping is the caller's object, so its mutations survive an exception.
\<close>

definition check_emails ::
  "pylib \<Rightarrow> mailbox \<Rightarrow> filter_map \<Rightarrow> cache \<Rightarrow> int \<Rightarrow> bool \<Rightarrow> nat
     \<Rightarrow> (string + matched_email list) \<times> cache \<times> nat" where
  "check_emails L mb filters processed_emails n uc clk =
     (case login_failure mb of
        Some e \<Rightarrow> (Inl (connection_error e), processed_emails, clk)
      | None \<Rightarrow>
          (case search_result mb of
             Inl e \<Rightarrow> (Inl (connection_error e), processed_emails, clk)
           | Inr nums \<Rightarrow>
               if nums = [] then (Inr [], processed_emails, clk)
               else
                 let st = messages_loop L mb filters uc (limit_messages nums n)
                            \<lparr>rs_matched = [], rs_cache = processed_emails, rs_clock = clk\<rparr>
                 in (case close_failure mb of
                       Some e \<Rightarrow> (Inl (connection_error e), rs_cache st, rs_clock st)
                     | None \<Rightarrow> (Inr (rs_matched st), rs_cache st, rs_clock st))))"

section \<open>Monitor\<close>

text \<open>\<open>datetime.now(timezone.utc).isoformat()\<close> reads the clock, which then moves on.\<close>

definition now_iso :: "pylib \<Rightarrow> world \<Rightarrow> string \<times> world" where
  "now_iso L w = (utc_isoformat L (clock w), w\<lparr>clock := Suc (clock w)\<rparr>)"

definition ctx_set :: "string \<Rightarrow> ctx_value \<Rightarrow> world \<Rightarrow> world" where
  "ctx_set k v w = w\<lparr>ctx_store := AList.update k v (ctx_store w)\<rparr>"

text \<open>
  One check of \<open>monitoring_loop\<close> (the first one and every periodic one have the same
  body): the cache is saved and the context updated only when the run matched something,
  and an exception of the run is printed and swallowed.
\<close>

definition monitoring_check ::
  "pylib \<Rightarrow> mailbox \<Rightarrow> filter_map \<Rightarrow> int \<Rightarrow> bool \<Rightarrow> cache \<times> world \<Rightarrow> cache \<times> world" where
  "monitoring_check L mb filters n uc s =
     (case check_emails L mb filters (fst s) n uc (clock (snd s)) of
        (Inl e, processed_emails, clk) \<Rightarrow> (processed_emails, (snd s)\<lparr>clock := clk\<rparr>)
      | (Inr matched, processed_emails, clk) \<Rightarrow>
          if matched \<noteq> [] then
            let w1 = save_cache processed_emails ((snd s)\<lparr>clock := clk\<rparr>);
                (t1, w2) = now_iso L w1;
                w3 = ctx_set ''skill:gmail_check:latest_results''
                       (CtxData \<lparr>matched_emails = matched, check_time = t1,
                                 total_matched = length matched, data_background_mode = True\<rparr>) w2;
                (t2, w4) = now_iso L w3
            in (processed_emails, ctx_set ''skill:gmail_check:last_check'' (CtxText t2) w4)
          else (processed_emails, (snd s)\<lparr>clock := clk\<rparr>))"

text \<open>
  The periodic part of \<open>monitoring_loop\<close>, driven by what each wait on the stop event
  brings: the event was set, or the interval passed and the mail store is in some state.
\<close>

datatype wait_outcome = StopSet | IntervalElapsed mailbox

fun periodic_checks ::
  "pylib \<Rightarrow> filter_map \<Rightarrow> int \<Rightarrow> bool \<Rightarrow> wait_outcome list \<Rightarrow> cache \<times> world \<Rightarrow> cache \<times> world" where
  "periodic_checks L filters n uc [] s = s"
| "periodic_checks L filters n uc (StopSet # rest) s = s"
| "periodic_checks L filters n uc (IntervalElapsed mb # rest) s =
     periodic_checks L filters n uc rest (monitoring_check L mb filters n uc s)"

definition monitoring_loop ::
  "pylib \<Rightarrow> filter_map \<Rightarrow> int \<Rightarrow> bool \<Rightarrow> mailbox \<Rightarrow> wait_outcome list \<Rightarrow> world \<Rightarrow> cache \<times> world" where
  "monitoring_loop L filters n uc mb waits w =
     periodic_checks L filters n uc waits
       (monitoring_check L mb filters n uc (if uc then load_cache L w else [], w))"

text \<open>
  \<open>_start_background_monitoring\<close> on the caller's side: a live thread is signalled and
  joined without a timeout, the stop event is cleared, and a new thread is started.
\<close>

definition start_background_monitoring ::
  "pylib \<Rightarrow> filter_map \<Rightarrow> int \<Rightarrow> world \<Rightarrow> result \<times> world" where
  "start_background_monitoring L filters interval w =
     (let w1 = (case monitoring_thread w of
                  None \<Rightarrow> w
                | Some t \<Rightarrow>
                    if is_alive t
                    then w\<lparr>stop_event := True, monitoring_thread := Some (t\<lparr>is_alive := False\<rparr>)\<rparr>
                    else w);
          w2 = w1\<lparr>stop_event := False,
                   monitoring_thread := Some \<lparr>is_alive = True\<rparr>\<rparr>;
          (t, w3) = now_iso L w2
      in (MonitoringStarted
            \<lparr>ack_check_interval = interval, monitoring_started = t,
             ack_message = ''Background monitoring started with '' @ py_str_int interval
                             @ '' minute intervals'',
             monitoring_active = True, filters_count = length filters\<rparr>,
          w3))"

text \<open>
  \<open>stop_monitoring\<close>. What \<open>join(timeout=5)\<close> brings is the environment's: the flag
  \<open>join_timed_out\<close> says that the five seconds passed with the thread still running
  (it is inside a run of \<open>_check_emails\<close> and looks at the stop event only between
  runs). The thread is alive afterwards exactly in that case, and the return value does
  not look at it again.
\<close>

definition stop_monitoring :: "bool \<Rightarrow> world \<Rightarrow> bool \<times> world" where
  "stop_monitoring join_timed_out w =
     (case monitoring_thread w of
        None \<Rightarrow> (False, w)
      | Some t \<Rightarrow>
          if is_alive t
          then (True, w\<lparr>stop_event := True,
                        monitoring_thread := Some (t\<lparr>is_alive := join_timed_out\<rparr>)\<rparr>)
          else (False, w))"

section \<open>The entry point\<close>

text \<open>Python's truth value of an optional string and of an optional dictionary.\<close>

definition truthy :: "'a list option \<Rightarrow> bool" where
  "truthy x = (case x of None \<Rightarrow> False | Some v \<Rightarrow> v \<noteq> [])"

definition validation_message :: string where
  "validation_message = ''Missing required parameters: username, app_password, or email_filters''"

definition search_period_text :: "config \<Rightarrow> string" where
  "search_period_text cfg =
     (case time_range_hours cfg of
        Some h \<Rightarrow> py_str_int h @ '' hours''
      | None \<Rightarrow> py_str_int (days_back cfg) @ '' days'')"

definition store_result :: "pylib \<Rightarrow> result \<Rightarrow> world \<Rightarrow> result \<times> world" where
  "store_result L r w =
     (let w1 = ctx_set ''skill:gmail_check:result'' (CtxResult r) w;
          (t, w2) = now_iso L w1
      in (r, ctx_set ''skill:gmail_check:last_check'' (CtxText t) w2))"

text \<open>
  \<open>execute\<close>. The exception of \<open>_check_emails\<close> is caught by the outer \<open>except\<close>: the
  failure envelope is returned before the cache is saved and before the context is
  written.
\<close>

definition execute :: "pylib \<Rightarrow> mailbox \<Rightarrow> config \<Rightarrow> world \<Rightarrow> result \<times> world" where
  "execute L mb cfg w =
     (if \<not> truthy (username cfg) \<or> \<not> truthy (app_password cfg) \<or> \<not> truthy (email_filters cfg)
      then (Failure validation_message ''validation_error'', w)
      else
        let filters = (case email_filters cfg of None \<Rightarrow> [] | Some f \<Rightarrow> f);
            processed_emails = (if use_cache cfg then load_cache L w else [])
        in if background_mode cfg
           then (case start_background_monitoring L filters (check_interval cfg) w of
                   (r, w1) \<Rightarrow> store_result L r w1)
           else
             (case check_emails L mb filters processed_emails (max_emails cfg) (use_cache cfg) (clock w) of
                (Inl e, processed', clk) \<Rightarrow> (Failure e ''execution_error'', w\<lparr>clock := clk\<rparr>)
              | (Inr matched, processed', clk) \<Rightarrow>
                  let w1 = save_cache processed' (w\<lparr>clock := clk\<rparr>);
                      (t, w2) = now_iso L w1
                  in store_result L
                       (CheckSuccess
                          \<lparr>matched_emails = matched, check_time = t,
                           total_matched = length matched, data_background_mode = False\<rparr>
                          \<lparr>emails_checked = length matched, cache_size = length processed',
                           filters_applied = length filters,
                           stat_time_range_hours = time_range_hours cfg,
                           cache_enabled = use_cache cfg,
                           search_period = search_period_text cfg\<rparr>)
                       w2))"

section \<open>A library for evaluating examples\<close>

text \<open>
  The theorems below hold for every library \<open>L\<close>. Where an example is evaluated, the
  library is this one: subjects are plain ASCII, which \<open>_decode_header\<close> returns as they
  are; the digest is replaced by its argument (the examples only compare fingerprints
  for equality); the clock reading is printed as a number; and the decoder reads a JSON
  object whose values are strings, which is what a cache file holds, and raises on any
  other text.
\<close>

datatype token = LBrace | RBrace | Colon | Comma | Str string

text \<open>
  The decoder's lexer reads one character at a time: between tokens, inside a string
  literal (with the characters read so far, last one first), behind a backslash, and
  behind \<open>\\u\<close> (with the hexadecimal digits read so far).
\<close>

datatype lex_state = Outside | InStr string | Esc string | Hex string "nat list"

definition json_ws :: "char \<Rightarrow> bool" where
  "json_ws c = (c \<in> set [CHR 0x20, CHR 0x09, CHR 0x0A, CHR 0x0D])"

definition unescape :: "char \<Rightarrow> char option" where
  "unescape c =
     map_of [(CHR 0x22, CHR 0x22), (CHR 0x5C, CHR 0x5C), (CHR ''/'', CHR ''/''),
             (CHR ''b'', CHR 0x08), (CHR ''f'', CHR 0x0C), (CHR ''n'', CHR 0x0A),
             (CHR ''r'', CHR 0x0D), (CHR ''t'', CHR 0x09)] c"

definition hex_value :: "char \<Rightarrow> nat option" where
  "hex_value c =
     map_of (zip ''0123456789abcdef'' [0 ..< 16] @ zip ''ABCDEF'' [10 ..< 16]) c"

fun json_lex :: "lex_state \<Rightarrow> string \<Rightarrow> token list option" where
  "json_lex Outside [] = Some []"
| "json_lex (InStr acc) [] = None"
| "json_lex (Esc acc) [] = None"
| "json_lex (Hex acc ds) [] = None"
| "json_lex Outside (c # cs) =
     (if json_ws c then json_lex Outside cs
      else if c = CHR ''{'' then map_option ((#) LBrace) (json_lex Outside cs)
      else if c = CHR ''}'' then map_option ((#) RBrace) (json_lex Outside cs)
      else if c = CHR '':'' then map_option ((#) Colon) (json_lex Outside cs)
      else if c = CHR '','' then map_option ((#) Comma) (json_lex Outside cs)
      else if c = CHR 0x22 then json_lex (InStr []) cs
      else None)"
| "json_lex (InStr acc) (c # cs) =
     (if c = CHR 0x22 then map_option ((#) (Str (rev acc))) (json_lex Outside cs)
      else if c = CHR 0x5C then json_lex (Esc acc) cs
      else if (of_char c :: nat) < 32 then None
      else json_lex (InStr (c # acc)) cs)"
| "json_lex (Esc acc) (c # cs) =
     (if c = CHR ''u'' then json_lex (Hex acc []) cs
      else (case unescape c of
              None \<Rightarrow> None
            | Some d \<Rightarrow> json_lex (InStr (d # acc)) cs))"
| "json_lex (Hex acc ds) (c # cs) =
     (case hex_value c of
        None \<Rightarrow> None
      | Some d \<Rightarrow>
          if length ds < 3 then json_lex (Hex acc (ds @ [d])) cs
          else (let n = foldl (\<lambda>a x. 16 * a + x) 0 (ds @ [d])
                in if n < 128 then json_lex (InStr (char_of n # acc)) cs else None))"

text \<open>The members of the object; a key that comes again replaces the earlier value.\<close>

fun parse_members :: "token list \<Rightarrow> cache \<Rightarrow> cache option" where
  "parse_members (Str k # Colon # Str v # sep # rest) d =
     (if sep = Comma then parse_members rest (AList.update k v d)
      else if sep = RBrace \<and> rest = [] then Some (AList.update k v d)
      else None)"
| "parse_members toks d = None"

definition json_decode :: "string \<Rightarrow> cache option" where
  "json_decode s =
     (case json_lex Outside s of
        None \<Rightarrow> None
      | Some toks \<Rightarrow>
          (case toks of
             [] \<Rightarrow> None
           | t # rest \<Rightarrow>
               if t \<noteq> LBrace then None
               else if rest = [RBrace] then Some []
               else parse_members rest []))"

text \<open>The tokens of the text \<open>json_dumps\<close> writes for the members of a mapping.\<close>

fun member_tokens :: "cache \<Rightarrow> token list" where
  "member_tokens [] = []"
| "member_tokens [kv] = [Str (fst kv), Colon, Str (snd kv)]"
| "member_tokens (kv # rest) = Str (fst kv) # Colon # Str (snd kv) # Comma # member_tokens rest"

definition example_lib :: pylib where
  "example_lib =
     \<lparr>md5_hexdigest = (\<lambda>s. s),
      decode_header = (\<lambda>s. s),
      utc_isoformat = py_str_nat,
      json_loads = json_decode\<rparr>"

text \<open>A cache file with one entry, written on one line: \<open>{"k": "v"}\<close>.\<close>

definition ex_compact_file :: string where
  "ex_compact_file =
     [CHR ''{'', CHR 0x22, CHR ''k'', CHR 0x22, CHR '':'', CHR '' '',
      CHR 0x22, CHR ''v'', CHR 0x22, CHR ''}'']"

text \<open>Two messages, a mail store that holds a given list of them, a configuration and a state.\<close>

definition ex_header_match :: header where
  "ex_header_match =
     \<lparr>hdr_from = Some ''Name <a@b.com>'', hdr_subject = Some ''This is a TEST email'',
      hdr_message_id = Some ''<m1@example.com>'',
      hdr_date = Some ''Mon, 01 Jan 2024 10:00:00 +0000''\<rparr>"

definition ex_header_other :: header where
  "ex_header_other =
     \<lparr>hdr_from = Some ''Name <x@y.com>'', hdr_subject = Some ''This is a TEST email'',
      hdr_message_id = Some ''<m2@example.com>'',
      hdr_date = Some ''Mon, 01 Jan 2024 11:00:00 +0000''\<rparr>"

definition ex_mailbox :: "(nat \<times> header) list \<Rightarrow> mailbox" where
  "ex_mailbox msgs =
     \<lparr>login_failure = None, search_result = Inr (map fst msgs),
      fetch_header = map_of msgs,
      fetch_content = (\<lambda>num. if num \<in> fst ` set msgs then Some ''body'' else None),
      close_failure = None\<rparr>"

definition ex_filters :: filter_map where
  "ex_filters = [(''a@b.com'', [''test''])]"

definition ex_config :: config where
  "ex_config =
     \<lparr>username = Some ''user@gmail.com'', app_password = Some ''abcdabcdabcdabcd'',
      email_filters = Some ex_filters,
      check_interval = 30, background_mode = False, max_emails = 100, days_back = 1,
      time_range_hours = Some 24, use_cache = True\<rparr>"

definition ex_world :: world where
  "ex_world =
     \<lparr>cache_file = None, cache_writable = True, clock = 0, ctx_store = [],
      monitoring_thread = None, stop_event = False\<rparr>"

section \<open>Notions the statements use\<close>

text \<open>The matched list of a run, empty when the run raised.\<close>

definition run_matches :: "(string + matched_email list) \<times> cache \<times> nat \<Rightarrow> matched_email list" where
  "run_matches r = (case fst r of Inl e \<Rightarrow> [] | Inr matched \<Rightarrow> matched)"

text \<open>
  The subject patterns of one filter entry that a message satisfies: those that match its
  subject when the entry's sender matches, none otherwise.
\<close>

definition subject_hits :: "string option \<Rightarrow> string \<Rightarrow> string \<times> string list \<Rightarrow> string list" where
  "subject_hits sndr subj entry =
     (if match_sender sndr (fst entry) then filter (match_subject subj) (snd entry) else [])"

text \<open>The last filter sender, in the order of the filter map, that matches the sender.\<close>

definition last_sender_match :: "string option \<Rightarrow> filter_map \<Rightarrow> string option" where
  "last_sender_match sndr fm =
     (case rev (filter (match_sender sndr) (map fst fm)) of
        [] \<Rightarrow> None
      | k # ks \<Rightarrow> Some k)"

section \<open>Properties of the string functions\<close>

lemma py_in_sublist: "py_in p s \<longleftrightarrow> sublist p s"
  by (induction s) (auto simp: sublist_Cons_right)

lemma py_lower_Nil [simp]: "py_lower [] = []"
  by (simp add: py_lower_def)

lemma py_lower_eq_Nil [simp]: "py_lower s = [] \<longleftrightarrow> s = []"
  by (simp add: py_lower_def)

lemma py_split_length: "sep \<in> set s \<Longrightarrow> 2 \<le> length (py_split sep s)"
proof (induction s)
  case Nil
  then show ?case by simp
next
  case (Cons c cs)
  have ne: "py_split sep cs \<noteq> []"
    by (cases cs) (auto split: list.splits)
  show ?case
  proof (cases "c = sep")
    case True
    with ne show ?thesis by (cases "py_split sep cs") auto
  next
    case False
    with Cons show ?thesis by (auto split: list.splits)
  qed
qed

lemma match_subject_sublist:
  "match_subject S P \<longleftrightarrow> S \<noteq> [] \<and> sublist (py_lower P) (py_lower S)"
  by (simp add: match_subject_def py_in_sublist)

section \<open>Properties of the filter loops\<close>

lemma subjects_loop_sender: "matched_sender (subjects_loop subj ps st) = matched_sender st"
  by (induction ps arbitrary: st) auto

lemma subjects_loop_subjects:
  "matched_subjects (subjects_loop subj ps st)
     = matched_subjects st @ filter (match_subject subj) ps"
  by (induction ps arbitrary: st) auto

lemma subjects_loop_found:
  "match_found (subjects_loop subj ps st)
     \<longleftrightarrow> match_found st \<or> (\<exists>p \<in> set ps. match_subject subj p)"
  by (induction ps arbitrary: st) auto

lemma filters_loop_subjects:
  "matched_subjects (filters_loop sndr subj fm st)
     = matched_subjects st @ concat (map (subject_hits sndr subj) fm)"
  by (induction fm arbitrary: st) (auto simp: subjects_loop_subjects subject_hits_def)

lemma filters_loop_found:
  "match_found (filters_loop sndr subj fm st) \<longleftrightarrow>
     match_found st \<or>
     (\<exists>entry \<in> set fm. match_sender sndr (fst entry) \<and>
                        (\<exists>p \<in> set (snd entry). match_subject subj p))"
proof (induction fm arbitrary: st)
  case Nil
  then show ?case by simp
next
  case (Cons entry fm)
  obtain fs pats where e: "entry = (fs, pats)" by (cases entry)
  show ?case
    by (cases "match_sender sndr fs") (auto simp: e Cons.IH subjects_loop_found)
qed

lemma filters_loop_sender:
  "matched_sender (filters_loop sndr subj fm st) =
     (case last_sender_match sndr fm of None \<Rightarrow> matched_sender st | Some k \<Rightarrow> Some k)"
proof (induction fm arbitrary: st)
  case Nil
  then show ?case by (simp add: last_sender_match_def)
next
  case (Cons entry fm)
  obtain fs pats where e: "entry = (fs, pats)" by (cases entry)
  show ?case
    by (cases "rev (filter (match_sender sndr) (map fst fm))")
       (simp_all add: e Cons.IH subjects_loop_sender last_sender_match_def)
qed

section \<open>Properties of a run\<close>

lemma process_message_no_filters: "process_message L mb [] uc num st = st"
  by (simp add: process_message_def init_filter_state_def Let_def split: option.splits)

lemma messages_loop_no_filters: "messages_loop L mb [] uc nums st = st"
  by (induction nums arbitrary: st) (simp_all add: process_message_no_filters)

text \<open>
  With the cache in use, four facts hold of the loop state from one message to the next:
  the reported fingerprints are pairwise different, each of them is a key of the mapping,
  none of them is in a set \<open>K\<close> of keys the mapping had at the start, and the mapping
  still has the keys of \<open>K\<close>.
\<close>

lemma process_message_once:
  assumes "distinct (map email_id (rs_matched st))"
    and "email_id ` set (rs_matched st) \<subseteq> fst ` set (rs_cache st)"
    and "email_id ` set (rs_matched st) \<inter> K = {}"
    and "K \<subseteq> fst ` set (rs_cache st)"
  shows "distinct (map email_id (rs_matched (process_message L mb fm True num st))) \<and>
         email_id ` set (rs_matched (process_message L mb fm True num st))
           \<subseteq> fst ` set (rs_cache (process_message L mb fm True num st)) \<and>
         email_id ` set (rs_matched (process_message L mb fm True num st)) \<inter> K = {} \<and>
         K \<subseteq> fst ` set (rs_cache (process_message L mb fm True num st))"
  using assms
  by (auto simp: process_message_def Let_def dom_update split: option.splits)

lemma messages_loop_once:
  assumes "distinct (map email_id (rs_matched st))"
    and "email_id ` set (rs_matched st) \<subseteq> fst ` set (rs_cache st)"
    and "email_id ` set (rs_matched st) \<inter> K = {}"
    and "K \<subseteq> fst ` set (rs_cache st)"
  shows "distinct (map email_id (rs_matched (messages_loop L mb fm True nums st))) \<and>
         email_id ` set (rs_matched (messages_loop L mb fm True nums st)) \<inter> K = {}"
  using assms
proof (induction nums arbitrary: st)
  case Nil
  then show ?case by simp
next
  case (Cons num nums)
  from process_message_once [OF Cons.prems, of L mb fm num]
  show ?case by (simp add: Cons.IH)
qed

lemma run_matches_cases:
  "run_matches (check_emails L mb fm processed n uc clk) = [] \<or>
   (\<exists>nums. run_matches (check_emails L mb fm processed n uc clk)
      = rs_matched (messages_loop L mb fm uc nums
                      \<lparr>rs_matched = [], rs_cache = processed, rs_clock = clk\<rparr>))"
  by (auto simp: run_matches_def check_emails_def Let_def split: option.splits sum.splits)

section \<open>Properties of the cache file\<close>

lemma cache_file_save_cache:
  "cache_file (save_cache d w) = (if cache_writable w then Some (json_dumps d) else cache_file w)"
  by (simp add: save_cache_def)

lemma cache_file_store_result: "cache_file (snd (store_result L r w)) = cache_file w"
  by (simp add: store_result_def Let_def now_iso_def ctx_set_def)

lemma check_emails_candidates:
  assumes "login_failure mb = None" and "search_result mb = Inr nums" and "nums \<noteq> []"
    and "close_failure mb = None"
  shows "run_matches (check_emails L mb fm processed n uc clk)
           = rs_matched (messages_loop L mb fm uc (candidates mb n)
                           \<lparr>rs_matched = [], rs_cache = processed, rs_clock = clk\<rparr>)"
  using assms by (simp add: run_matches_def check_emails_def candidates_def Let_def)

section \<open>The example decoder reads what \<open>json_dumps\<close> writes\<close>

lemma hex_value_hex_char: "hex_value (hex_char k) = Some (k mod 16)"
proof -
  have "\<forall>j \<in> set [0 ..< 16]. hex_value (''0123456789abcdef'' ! j) = Some j"
    by code_simp
  moreover have "k mod 16 \<in> set [0 ..< 16]" by simp
  ultimately show ?thesis unfolding hex_char_def by blast
qed

lemma hex_value_zero: "hex_value (CHR ''0'') = Some 0"
  by code_simp

lemma lex_escape_char:
  "json_lex (InStr acc) (json_escape_char c @ rest) = json_lex (InStr (c # acc)) rest"
proof -
  let ?n = "of_char c :: nat"
  show ?thesis
  proof (cases "?n < 32")
    case True
    have v: "16 * (?n div 16 mod 16) + ?n mod 16 = ?n" using True by simp
    show ?thesis using True v
      by (auto simp: json_escape_char_def unescape_def hex_value_hex_char hex_value_zero Let_def)
  next
    case False
    then show ?thesis
      by (auto simp: json_escape_char_def unescape_def)
  qed
qed

lemma lex_escaped:
  "json_lex (InStr acc) (concat (map json_escape_char s) @ rest)
     = json_lex (InStr (rev s @ acc)) rest"
  by (induction s arbitrary: acc) (simp_all add: lex_escape_char)

lemma lex_json_string:
  "json_lex Outside (json_string s @ rest) = map_option ((#) (Str s)) (json_lex Outside rest)"
  by (simp add: json_string_def json_ws_def lex_escaped)

lemma lex_json_item:
  "json_lex Outside (json_item kv @ rest)
     = map_option (\<lambda>ts. Str (fst kv) # Colon # Str (snd kv) # ts) (json_lex Outside rest)"
  by (simp add: json_item_def json_ws_def lex_json_string option.map_comp comp_def)

lemma lex_json_items:
  "json_lex Outside (json_items m @ rest)
     = map_option ((@) (member_tokens m)) (json_lex Outside rest)"
proof (induction m rule: json_items.induct)
  case 1
  then show ?case by (simp add: option.map_ident)
next
  case (2 kv)
  then show ?case by (simp add: lex_json_item)
next
  case (3 kv v va)
  then show ?case
    by (simp add: lex_json_item json_ws_def option.map_comp comp_def)
qed

lemma lex_json_dumps:
  "m \<noteq> [] \<Longrightarrow> json_lex Outside (json_dumps m) = Some (LBrace # member_tokens m @ [RBrace])"
  using lex_json_items [of m "[CHR 0x0A, CHR ''}'']"]
  by (simp add: json_dumps_def json_ws_def)

lemma update_fresh: "k \<notin> fst ` set d \<Longrightarrow> AList.update k v d = d @ [(k, v)]"
  by (induction d) auto

lemma parse_member_tokens:
  "m \<noteq> [] \<Longrightarrow> distinct (map fst (d @ m)) \<Longrightarrow>
     parse_members (member_tokens m @ [RBrace]) d = Some (d @ m)"
proof (induction m arbitrary: d rule: member_tokens.induct)
  case 1
  then show ?case by simp
next
  case (2 kv)
  then show ?case by (simp add: update_fresh)
next
  case (3 kv v va)
  from "3.prems" have "distinct (map fst ((d @ [kv]) @ v # va))" by simp
  with "3.IH" [of "d @ [kv]"]
  have "parse_members (member_tokens (v # va) @ [RBrace]) (d @ [kv]) = Some ((d @ [kv]) @ v # va)"
    by blast
  moreover from "3.prems" have "AList.update (fst kv) (snd kv) d = d @ [kv]"
    by (simp add: update_fresh)
  ultimately show ?case by simp
qed

text \<open>
  A dictionary has each key once. For every such mapping the example decoder returns the
  mapping from its serialisation, so the library can satisfy, for every mapping, what
  the statement about loading and saving asks of \<open>json.load\<close>.
\<close>

lemma json_decode_dumps:
  assumes "distinct (map fst m)"
  shows "json_decode (json_dumps m) = Some m"
proof (cases "m = []")
  case True
  then show ?thesis by (simp add: json_decode_def json_dumps_def json_ws_def)
next
  case False
  then have "member_tokens m @ [RBrace] \<noteq> [RBrace]"
    by (cases m rule: member_tokens.cases) simp_all
  with False assms parse_member_tokens [of m "[]"] show ?thesis
    by (simp add: json_decode_def lex_json_dumps)
qed

section \<open>The claims\<close>

text \<open>
  C1, as amended. \<open>execute\<close> rejects an empty (or missing) filter map with a
  \<open>validation_error\<close> envelope, without running the check and without touching the
  state. An empty filter map is not an error one level below: \<open>_check_emails\<close> called
  with it on a working mail session returns an empty match list and leaves the cache
  mapping as it was.
\<close>

theorem empty_filters_rejected:
  "(\<not> truthy (email_filters cfg) \<longrightarrow>
      execute L mb cfg w = (Failure validation_message ''validation_error'', w)) \<and>
   (login_failure mb = None \<and> search_result mb = Inr nums \<and> close_failure mb = None \<longrightarrow>
      check_emails L mb [] processed n uc clk = (Inr [], processed, clk))"
  by (simp add: execute_def check_emails_def messages_loop_no_filters)

theorem empty_filters_rejected_witness:
  "execute example_lib (ex_mailbox [(1, ex_header_match)])
      (ex_config\<lparr>email_filters := Some []\<rparr>) ex_world
     = (Failure validation_message ''validation_error'', ex_world) \<and>
   check_emails example_lib (ex_mailbox [(1, ex_header_match)]) [] [] 100 True 0 = (Inr [], [], 0)"
  using empty_filters_rejected [where cfg = "ex_config\<lparr>email_filters := Some []\<rparr>"
      and mb = "ex_mailbox [(1, ex_header_match)]" and nums = "[1]" and L = example_lib
      and w = ex_world and processed = "[]" and n = 100 and uc = True and clk = 0]
  by (simp add: truthy_def ex_config_def ex_mailbox_def)

text \<open>
  C1 as stated fails: with a user name, a password and a present but empty filter map,
  the one-shot \<open>execute\<close> returns the failure envelope, not a successful empty result.
\<close>

theorem empty_filters_not_success:
  "fst (execute example_lib (ex_mailbox [(1, ex_header_match)])
          (ex_config\<lparr>email_filters := Some []\<rparr>) ex_world)
     = Failure validation_message ''validation_error''"
  by (simp add: execute_def truthy_def ex_config_def)

text \<open>
  C2. When the session cannot be established during a one-shot run, \<open>execute\<close> returns
  the failure envelope of type \<open>execution_error\<close> carrying the connection error, and
  the state is what it was before the call; in particular the cache file is untouched.
  The same envelope, with the cache file and the context untouched, is the result
  whenever \<open>_check_emails\<close> raises, also after it has inserted fingerprints into the
  mapping in memory.
\<close>

theorem connection_failure_aborts:
  assumes "truthy (username cfg)" and "truthy (app_password cfg)"
    and "email_filters cfg = Some fm" and "fm \<noteq> []" and "\<not> background_mode cfg"
  shows "(login_failure mb = Some e \<longrightarrow>
            execute L mb cfg w = (Failure (connection_error e) ''execution_error'', w)) \<and>
         (fst (check_emails L mb fm (if use_cache cfg then load_cache L w else [])
                 (max_emails cfg) (use_cache cfg) (clock w)) = Inl msg \<longrightarrow>
            fst (execute L mb cfg w) = Failure msg ''execution_error'' \<and>
            cache_file (snd (execute L mb cfg w)) = cache_file w \<and>
            ctx_store (snd (execute L mb cfg w)) = ctx_store w)"
proof -
  from assms have t: "truthy (email_filters cfg)"
    by (simp add: truthy_def)
  show ?thesis
  proof (rule conjI; rule impI)
    assume "login_failure mb = Some e"
    with assms t show "execute L mb cfg w = (Failure (connection_error e) ''execution_error'', w)"
      by (simp add: execute_def check_emails_def)
  next
    assume r: "fst (check_emails L mb fm (if use_cache cfg then load_cache L w else [])
                   (max_emails cfg) (use_cache cfg) (clock w)) = Inl msg"
    obtain processed' clk where
      "check_emails L mb fm (if use_cache cfg then load_cache L w else [])
         (max_emails cfg) (use_cache cfg) (clock w) = (Inl msg, processed', clk)"
      using r
      by (cases "check_emails L mb fm (if use_cache cfg then load_cache L w else [])
                   (max_emails cfg) (use_cache cfg) (clock w)") auto
    with assms t show "fst (execute L mb cfg w) = Failure msg ''execution_error'' \<and>
            cache_file (snd (execute L mb cfg w)) = cache_file w \<and>
            ctx_store (snd (execute L mb cfg w)) = ctx_store w"
      by (simp add: execute_def Let_def)
  qed
qed

theorem connection_failure_aborts_witness:
  "execute example_lib
      ((ex_mailbox [(1, ex_header_match)])\<lparr>login_failure := Some ''AUTHENTICATIONFAILED''\<rparr>)
      ex_config ex_world
     = (Failure ''Gmail connection error: AUTHENTICATIONFAILED'' ''execution_error'', ex_world) \<and>
   fst (execute example_lib
      ((ex_mailbox [(1, ex_header_match)])\<lparr>close_failure := Some ''socket error''\<rparr>)
      ex_config ex_world)
     = Failure ''Gmail connection error: socket error'' ''execution_error'' \<and>
   cache_file (snd (execute example_lib
      ((ex_mailbox [(1, ex_header_match)])\<lparr>close_failure := Some ''socket error''\<rparr>)
      ex_config ex_world)) = None"
proof -
  have v: "truthy (username ex_config) \<and> truthy (app_password ex_config) \<and>
           email_filters ex_config = Some ex_filters \<and> ex_filters \<noteq> [] \<and>
           \<not> background_mode ex_config"
    by (simp add: truthy_def ex_config_def ex_filters_def)
  have l: "login_failure ((ex_mailbox [(1, ex_header_match)])\<lparr>login_failure := Some ''AUTHENTICATIONFAILED''\<rparr>)
             = Some ''AUTHENTICATIONFAILED''"
    by simp
  have c: "fst (check_emails example_lib
                  ((ex_mailbox [(1, ex_header_match)])\<lparr>close_failure := Some ''socket error''\<rparr>)
                  ex_filters (if use_cache ex_config then load_cache example_lib ex_world else [])
                  (max_emails ex_config) (use_cache ex_config) (clock ex_world))
             = Inl ''Gmail connection error: socket error''"
    by code_simp
  note T = connection_failure_aborts [where cfg = ex_config and fm = ex_filters
      and L = example_lib and w = ex_world]
  from v l T [where mb = "(ex_mailbox [(1, ex_header_match)])\<lparr>login_failure := Some ''AUTHENTICATIONFAILED''\<rparr>"
      and e = "''AUTHENTICATIONFAILED''"]
  have "execute example_lib
      ((ex_mailbox [(1, ex_header_match)])\<lparr>login_failure := Some ''AUTHENTICATIONFAILED''\<rparr>)
      ex_config ex_world
     = (Failure (connection_error ''AUTHENTICATIONFAILED'') ''execution_error'', ex_world)"
    by blast
  moreover from v c T [where mb = "(ex_mailbox [(1, ex_header_match)])\<lparr>close_failure := Some ''socket error''\<rparr>"
      and msg = "''Gmail connection error: socket error''"]
  have "fst (execute example_lib
      ((ex_mailbox [(1, ex_header_match)])\<lparr>close_failure := Some ''socket error''\<rparr>)
      ex_config ex_world)
     = Failure ''Gmail connection error: socket error'' ''execution_error'' \<and>
   cache_file (snd (execute example_lib
      ((ex_mailbox [(1, ex_header_match)])\<lparr>close_failure := Some ''socket error''\<rparr>)
      ex_config ex_world)) = cache_file ex_world"
    by blast
  ultimately show ?thesis
    by (simp add: connection_error_def ex_world_def)
qed

text \<open>
  C3, as amended. When the cache file can be written: a one-shot run that
  \<open>_check_emails\<close> completes ends with the updated mapping saved, whatever \<open>use_cache\<close>
  is and whether or not anything matched; a check of the background loop saves the
  updated mapping when the run matched something, and leaves the file as it was when
  nothing matched.
\<close>

theorem cache_saved_after_run:
  assumes "cache_writable w"
  shows "(truthy (username cfg) \<and> truthy (app_password cfg) \<and> email_filters cfg = Some fm \<and>
          fm \<noteq> [] \<and> \<not> background_mode cfg \<and>
          check_emails L mb fm (if use_cache cfg then load_cache L w else []) (max_emails cfg)
            (use_cache cfg) (clock w) = (Inr matched, processed', clk)
          \<longrightarrow> cache_file (snd (execute L mb cfg w)) = Some (json_dumps processed')) \<and>
         (check_emails L mb fm processed n uc (clock w) = (Inr matched, processed', clk)
          \<longrightarrow> cache_file (snd (monitoring_check L mb fm n uc (processed, w)))
                = (if matched \<noteq> [] then Some (json_dumps processed') else cache_file w))"
proof (intro conjI impI)
  assume a: "truthy (username cfg) \<and> truthy (app_password cfg) \<and> email_filters cfg = Some fm \<and>
          fm \<noteq> [] \<and> \<not> background_mode cfg \<and>
          check_emails L mb fm (if use_cache cfg then load_cache L w else []) (max_emails cfg)
            (use_cache cfg) (clock w) = (Inr matched, processed', clk)"
  then have t: "truthy (email_filters cfg)" by (simp add: truthy_def)
  from a t assms show "cache_file (snd (execute L mb cfg w)) = Some (json_dumps processed')"
    by (simp add: execute_def Let_def now_iso_def cache_file_save_cache cache_file_store_result)
next
  assume "check_emails L mb fm processed n uc (clock w) = (Inr matched, processed', clk)"
  with assms show "cache_file (snd (monitoring_check L mb fm n uc (processed, w)))
                = (if matched \<noteq> [] then Some (json_dumps processed') else cache_file w)"
    by (simp add: monitoring_check_def Let_def now_iso_def ctx_set_def cache_file_save_cache)
qed

theorem cache_saved_after_run_witness:
  "cache_file (snd (execute example_lib (ex_mailbox [(1, ex_header_other)])
                      (ex_config\<lparr>use_cache := False\<rparr>) ex_world))
     = Some (json_dumps []) \<and>
   cache_file (snd (monitoring_check example_lib (ex_mailbox [(1, ex_header_other)])
                      ex_filters 100 False ([], ex_world)))
     = cache_file ex_world"
proof -
  have h0: "cache_writable ex_world"
    by (simp add: ex_world_def)
  have h1: "truthy (username (ex_config\<lparr>use_cache := False\<rparr>)) \<and>
            truthy (app_password (ex_config\<lparr>use_cache := False\<rparr>)) \<and>
            email_filters (ex_config\<lparr>use_cache := False\<rparr>) = Some ex_filters \<and>
            ex_filters \<noteq> [] \<and> \<not> background_mode (ex_config\<lparr>use_cache := False\<rparr>) \<and>
            check_emails example_lib (ex_mailbox [(1, ex_header_other)]) ex_filters
              (if use_cache (ex_config\<lparr>use_cache := False\<rparr>)
               then load_cache example_lib ex_world else [])
              (max_emails (ex_config\<lparr>use_cache := False\<rparr>))
              (use_cache (ex_config\<lparr>use_cache := False\<rparr>)) (clock ex_world)
              = (Inr [], [], 0)"
    by code_simp
  have h2: "check_emails example_lib (ex_mailbox [(1, ex_header_other)]) ex_filters [] 100 False
              (clock ex_world) = (Inr [], [], 0)"
    by code_simp
  note T = cache_saved_after_run [OF h0, where cfg = "ex_config\<lparr>use_cache := False\<rparr>"
      and fm = ex_filters and L = example_lib and mb = "ex_mailbox [(1, ex_header_other)]"
      and matched = "[]" and processed' = "[]" and clk = 0 and processed = "[]" and n = 100
      and uc = False]
  from T h1 have "cache_file (snd (execute example_lib (ex_mailbox [(1, ex_header_other)])
                      (ex_config\<lparr>use_cache := False\<rparr>) ex_world)) = Some (json_dumps [])"
    by blast
  moreover from T h2 have "cache_file (snd (monitoring_check example_lib
      (ex_mailbox [(1, ex_header_other)]) ex_filters 100 False ([], ex_world)))
      = (if [] \<noteq> ([] :: matched_email list) then Some (json_dumps []) else cache_file ex_world)"
    by blast
  ultimately show ?thesis by simp
qed

text \<open>
  C3 as stated fails for the background loop: with the cache not in use, a first check
  and a periodic check that match nothing end with the empty mapping in memory and the
  cache file still holding its old content, which is not the serialised mapping.
\<close>

theorem background_run_without_match_not_saved:
  "monitoring_loop example_lib ex_filters 100 False (ex_mailbox [(1, ex_header_other)])
      [IntervalElapsed (ex_mailbox [(1, ex_header_other)]), StopSet]
      (ex_world\<lparr>cache_file := Some (json_dumps [(''k'', ''v'')])\<rparr>)
    = ([], ex_world\<lparr>cache_file := Some (json_dumps [(''k'', ''v'')])\<rparr>) \<and>
   json_dumps [(''k'', ''v'')] \<noteq> json_dumps []"
  by code_simp

text \<open>
  C4, as amended. In a run with the cache in use, the returned list has at most one entry
  per fingerprint, and no entry whose fingerprint was in the supplied cache mapping: the
  insertion of a matched fingerprint is seen by the later iterations of the same run.
\<close>

theorem cached_run_reports_once:
  "distinct (map email_id (run_matches (check_emails L mb fm processed n True clk))) \<and>
   email_id ` set (run_matches (check_emails L mb fm processed n True clk))
     \<inter> fst ` set processed = {}"
proof -
  let ?st0 = "\<lparr>rs_matched = [], rs_cache = processed, rs_clock = clk\<rparr>"
  have inv: "distinct (map email_id (rs_matched (messages_loop L mb fm True nums ?st0))) \<and>
             email_id ` set (rs_matched (messages_loop L mb fm True nums ?st0))
               \<inter> fst ` set processed = {}" for nums
    by (rule messages_loop_once) simp_all
  from run_matches_cases [of L mb fm processed n True clk] show ?thesis
  proof
    assume "run_matches (check_emails L mb fm processed n True clk) = []"
    then show ?thesis by simp
  next
    assume "\<exists>nums. run_matches (check_emails L mb fm processed n True clk)
              = rs_matched (messages_loop L mb fm True nums ?st0)"
    then obtain nums where "run_matches (check_emails L mb fm processed n True clk)
              = rs_matched (messages_loop L mb fm True nums ?st0)" ..
    with inv [of nums] show ?thesis by simp
  qed
qed

theorem cached_run_reports_once_witness:
  "distinct (map email_id (run_matches (check_emails example_lib
      (ex_mailbox [(1, ex_header_match), (2, ex_header_match)]) ex_filters [] 100 True 0))) \<and>
   length (run_matches (check_emails example_lib
      (ex_mailbox [(1, ex_header_match), (2, ex_header_match)]) ex_filters [] 100 True 0)) = 1"
proof -
  have l: "length (run_matches (check_emails example_lib
      (ex_mailbox [(1, ex_header_match), (2, ex_header_match)]) ex_filters [] 100 True 0)) = 1"
    by code_simp
  from cached_run_reports_once [of example_lib
      "ex_mailbox [(1, ex_header_match), (2, ex_header_match)]" ex_filters "[]" 100 0] l
  show ?thesis by simp
qed

text \<open>
  C4 as stated fails with the cache not in use: two candidates with the same message
  identifier and date, hence the same fingerprint, are both reported.
\<close>

theorem uncached_run_reports_twice:
  "map email_id (run_matches (check_emails example_lib
      (ex_mailbox [(1, ex_header_match), (2, ex_header_match)]) ex_filters [] 100 False 0))
     = [fingerprint example_lib ex_header_match, fingerprint example_lib ex_header_match]"
  by code_simp

text \<open>
  C5, as amended. The filter loop visits every entry of the filter map. The candidate
  matches exactly when some entry's sender matches and one of that entry's subject
  patterns matches; the reported subject patterns are the matching patterns of all the
  entries whose sender matches, in order; and the reported sender filter is the last
  entry, in the order of the map, whose sender matches, whether or not one of its
  subject patterns matched.
\<close>

theorem filter_evaluation:
  "(match_found (filters_loop sndr subj fm init_filter_state) \<longleftrightarrow>
      (\<exists>entry \<in> set fm. match_sender sndr (fst entry) \<and>
                         (\<exists>p \<in> set (snd entry). match_subject subj p))) \<and>
   matched_subjects (filters_loop sndr subj fm init_filter_state)
     = concat (map (subject_hits sndr subj) fm) \<and>
   matched_sender (filters_loop sndr subj fm init_filter_state) = last_sender_match sndr fm"
  by (simp add: filters_loop_found filters_loop_subjects filters_loop_sender
      init_filter_state_def split: option.splits)

theorem filter_evaluation_witness:
  "match_found (filters_loop (Some ''Name <a@b.com>'') ''This is a TEST email''
      [(''a@b.com'', [''test'', ''email'']), (''x@y.com'', [''test'']), (''A@B.COM'', [''zzz'', ''this''])]
      init_filter_state) \<and>
   matched_subjects (filters_loop (Some ''Name <a@b.com>'') ''This is a TEST email''
      [(''a@b.com'', [''test'', ''email'']), (''x@y.com'', [''test'']), (''A@B.COM'', [''zzz'', ''this''])]
      init_filter_state) = [''test'', ''email'', ''this''] \<and>
   matched_sender (filters_loop (Some ''Name <a@b.com>'') ''This is a TEST email''
      [(''a@b.com'', [''test'', ''email'']), (''x@y.com'', [''test'']), (''A@B.COM'', [''zzz'', ''this''])]
      init_filter_state) = Some ''A@B.COM''"
proof -
  have a: "concat (map (subject_hits (Some ''Name <a@b.com>'') ''This is a TEST email'')
      [(''a@b.com'', [''test'', ''email'']), (''x@y.com'', [''test'']), (''A@B.COM'', [''zzz'', ''this''])])
      = [''test'', ''email'', ''this'']"
    by code_simp
  have b: "last_sender_match (Some ''Name <a@b.com>'')
      [(''a@b.com'', [''test'', ''email'']), (''x@y.com'', [''test'']), (''A@B.COM'', [''zzz'', ''this''])]
      = Some ''A@B.COM''"
    by code_simp
  have c: "match_sender (Some ''Name <a@b.com>'') ''a@b.com'' \<and>
           match_subject ''This is a TEST email'' ''test''"
    by code_simp
  from filter_evaluation [of "Some ''Name <a@b.com>''" "''This is a TEST email''"
      "[(''a@b.com'', [''test'', ''email'']), (''x@y.com'', [''test'']), (''A@B.COM'', [''zzz'', ''this''])]"]
    a b c
  show ?thesis by auto
qed

text \<open>
  C5 as stated fails in its last part: with two filter senders that differ only in case,
  the run reports the second one as the matched sender filter, although the only subject
  pattern that matched belongs to the first and the second one's pattern does not match.
\<close>

theorem matched_sender_without_subject_match:
  "map matched_sender_filter (run_matches (check_emails example_lib
      (ex_mailbox [(1, ex_header_match)]) [(''a@b.com'', [''test'']), (''A@B.COM'', [''zzz''])]
      [] 100 True 0)) = [Some ''A@B.COM''] \<and>
   map matched_subject_filters (run_matches (check_emails example_lib
      (ex_mailbox [(1, ex_header_match)]) [(''a@b.com'', [''test'']), (''A@B.COM'', [''zzz''])]
      [] 100 True 0)) = [[''test'']] \<and>
   \<not> match_subject ''This is a TEST email'' ''zzz''"
  by code_simp

text \<open>
  C6 fails on the code: in every successful one-shot result the statistic
  \<open>emails_checked\<close> is the number of matches, as \<open>total_matched\<close> is, and the cache
  size is that of the mapping after the run.
\<close>

theorem emails_checked_is_match_count:
  assumes "fst (execute L mb cfg w) = CheckSuccess d st"
  shows "emails_checked st = length (matched_emails d) \<and>
         total_matched d = length (matched_emails d) \<and>
         matched_emails d
           = run_matches (check_emails L mb (case email_filters cfg of None \<Rightarrow> [] | Some f \<Rightarrow> f)
               (if use_cache cfg then load_cache L w else []) (max_emails cfg) (use_cache cfg)
               (clock w)) \<and>
         cache_size st
           = length (fst (snd (check_emails L mb (case email_filters cfg of None \<Rightarrow> [] | Some f \<Rightarrow> f)
               (if use_cache cfg then load_cache L w else []) (max_emails cfg) (use_cache cfg)
               (clock w))))"
  using assms
  by (auto simp: execute_def store_result_def start_background_monitoring_def now_iso_def
      run_matches_def Let_def split: if_splits prod.splits sum.splits)

text \<open>
  With two candidates inspected and one of them matching, \<open>emails_checked\<close> is 1.
\<close>

theorem emails_checked_is_match_count_witness:
  "emails_checked (result_statistics (fst (execute example_lib
      (ex_mailbox [(1, ex_header_match), (2, ex_header_other)]) ex_config ex_world))) = 1 \<and>
   candidates (ex_mailbox [(1, ex_header_match), (2, ex_header_other)]) (max_emails ex_config)
     = [1, 2]"
proof -
  let ?r = "fst (execute example_lib (ex_mailbox [(1, ex_header_match), (2, ex_header_other)])
                   ex_config ex_world)"
  have e: "?r = CheckSuccess (result_data ?r) (result_statistics ?r)"
    by code_simp
  have l: "length (matched_emails (result_data ?r)) = 1"
    by code_simp
  have c: "candidates (ex_mailbox [(1, ex_header_match), (2, ex_header_other)])
             (max_emails ex_config) = [1, 2]"
    by code_simp
  from emails_checked_is_match_count [OF e] l c show ?thesis by simp
qed

text \<open>
  C7, as amended. \<open>stop_monitoring\<close> returns \<open>True\<close> exactly when a loop thread was
  alive at the call. When it returns \<open>False\<close> nothing has changed. When it returns
  \<open>True\<close> the stop event is set and the thread has been joined for at most the timeout:
  afterwards the thread is alive exactly when the join timed out.
\<close>

theorem stop_monitoring_result:
  "(fst (stop_monitoring join_timed_out w)
      \<longleftrightarrow> (\<exists>t. monitoring_thread w = Some t \<and> is_alive t)) \<and>
   (\<not> fst (stop_monitoring join_timed_out w) \<longrightarrow> snd (stop_monitoring join_timed_out w) = w) \<and>
   (fst (stop_monitoring join_timed_out w) \<longrightarrow>
      stop_event (snd (stop_monitoring join_timed_out w)) \<and>
      monitoring_thread (snd (stop_monitoring join_timed_out w))
        = Some \<lparr>is_alive = join_timed_out\<rparr>)"
  by (simp add: stop_monitoring_def split: option.splits)

theorem stop_monitoring_result_witness:
  "stop_monitoring False ex_world = (False, ex_world) \<and>
   fst (stop_monitoring False (ex_world\<lparr>monitoring_thread := Some \<lparr>is_alive = True\<rparr>\<rparr>)) \<and>
   stop_event (snd (stop_monitoring False
                      (ex_world\<lparr>monitoring_thread := Some \<lparr>is_alive = True\<rparr>\<rparr>))) \<and>
   monitoring_thread (snd (stop_monitoring False
                             (ex_world\<lparr>monitoring_thread := Some \<lparr>is_alive = True\<rparr>\<rparr>)))
     = Some \<lparr>is_alive = False\<rparr>"
proof -
  have a: "\<not> fst (stop_monitoring False ex_world)"
    by (simp add: stop_monitoring_def ex_world_def)
  have b: "fst (stop_monitoring False (ex_world\<lparr>monitoring_thread := Some \<lparr>is_alive = True\<rparr>\<rparr>))"
    by (simp add: stop_monitoring_def)
  from stop_monitoring_result [of False ex_world] a
  have "stop_monitoring False ex_world = (False, ex_world)"
    by (simp add: prod_eq_iff)
  moreover from stop_monitoring_result [of False
      "ex_world\<lparr>monitoring_thread := Some \<lparr>is_alive = True\<rparr>\<rparr>"] b
  have "stop_event (snd (stop_monitoring False
                      (ex_world\<lparr>monitoring_thread := Some \<lparr>is_alive = True\<rparr>\<rparr>))) \<and>
        monitoring_thread (snd (stop_monitoring False
                             (ex_world\<lparr>monitoring_thread := Some \<lparr>is_alive = True\<rparr>\<rparr>)))
          = Some \<lparr>is_alive = False\<rparr>"
    by simp
  ultimately show ?thesis using b by simp
qed

text \<open>
  C7 as stated fails: when the join times out, the loop thread is still alive after
  \<open>stop_monitoring\<close>, which has returned \<open>True\<close> all the same.
\<close>

theorem stop_monitoring_true_without_join:
  "stop_monitoring True (ex_world\<lparr>monitoring_thread := Some \<lparr>is_alive = True\<rparr>\<rparr>)
   = (True, ex_world\<lparr>stop_event := True, monitoring_thread := Some \<lparr>is_alive = True\<rparr>\<rparr>)"
  by (simp add: stop_monitoring_def)

text \<open>
  C8, as amended. For a non-empty subject, \<open>_match_subject\<close> is true exactly when the
  lower-cased pattern is a substring of the lower-cased subject; for the empty subject
  it is false for every pattern, the empty pattern included.
\<close>

theorem match_subject_iff:
  "(match_subject S P \<longleftrightarrow> S \<noteq> [] \<and> sublist (py_lower P) (py_lower S)) \<and>
   \<not> match_subject [] P"
  by (simp add: match_subject_sublist)

theorem match_subject_iff_witness:
  "match_subject ''This is a TEST email'' ''test'' \<and>
   sublist (py_lower ''test'') (py_lower ''This is a TEST email'') \<and>
   \<not> match_subject ''This is a TEST email'' ''zzz'' \<and>
   \<not> match_subject [] ''test''"
proof -
  have a: "match_subject ''This is a TEST email'' ''test''"
    by code_simp
  have b: "\<not> match_subject ''This is a TEST email'' ''zzz''"
    by code_simp
  from match_subject_iff [of "''This is a TEST email''" "''test''"] a b
    match_subject_iff [of "[]" "''test''"]
  show ?thesis by blast
qed

text \<open>
  C8 as stated fails at the empty subject with the empty pattern: the lower-cased pattern
  is a substring of the lower-cased subject, and \<open>_match_subject\<close> returns \<open>False\<close>.
\<close>

theorem match_subject_empty_empty:
  "\<not> (match_subject [] [] \<longleftrightarrow> sublist (py_lower []) (py_lower []))"
  by (simp add: match_subject_def)

text \<open>
  C9, as amended. When the cache file holds the serialisation \<open>_save_cache\<close> writes for
  a mapping and the decoder reads that mapping back, loading and saving at once leaves
  the state as it was. When the file is missing, or the decoder raises on its content,
  and the file can be written, loading and saving leaves \<open>{}\<close> in the file.
\<close>

theorem save_after_load:
  "(cache_file w = Some (json_dumps m) \<and> json_loads L (json_dumps m) = Some m \<longrightarrow>
      save_cache (load_cache L w) w = w) \<and>
   (cache_writable w \<and> cache_file w = None \<longrightarrow>
      cache_file (save_cache (load_cache L w) w) = Some ''{}'') \<and>
   (cache_writable w \<and> cache_file w = Some raw \<and> json_loads L raw = None \<longrightarrow>
      cache_file (save_cache (load_cache L w) w) = Some ''{}'')"
  by (simp add: save_cache_def load_cache_def json_dumps_def)

theorem save_after_load_witness:
  "save_cache (load_cache example_lib (ex_world\<lparr>cache_file := Some (json_dumps [(''k'', ''v'')])\<rparr>))
      (ex_world\<lparr>cache_file := Some (json_dumps [(''k'', ''v'')])\<rparr>)
     = ex_world\<lparr>cache_file := Some (json_dumps [(''k'', ''v'')])\<rparr> \<and>
   cache_file (save_cache (load_cache example_lib ex_world) ex_world) = Some ''{}'' \<and>
   cache_file (save_cache (load_cache example_lib (ex_world\<lparr>cache_file := Some ''not json''\<rparr>))
      (ex_world\<lparr>cache_file := Some ''not json''\<rparr>)) = Some ''{}''"
proof -
  have a: "json_loads example_lib (json_dumps [(''k'', ''v'')]) = Some [(''k'', ''v'')]"
    by code_simp
  have b: "json_loads example_lib ''not json'' = None"
    by code_simp
  have c: "cache_writable ex_world \<and> cache_file ex_world = None"
    by (simp add: ex_world_def)
  from save_after_load [where w = "ex_world\<lparr>cache_file := Some (json_dumps [(''k'', ''v'')])\<rparr>"
      and m = "[(''k'', ''v'')]" and L = example_lib] a
  have "save_cache (load_cache example_lib (ex_world\<lparr>cache_file := Some (json_dumps [(''k'', ''v'')])\<rparr>))
      (ex_world\<lparr>cache_file := Some (json_dumps [(''k'', ''v'')])\<rparr>)
     = ex_world\<lparr>cache_file := Some (json_dumps [(''k'', ''v'')])\<rparr>"
    by simp
  moreover from save_after_load [where w = ex_world and L = example_lib] c
  have "cache_file (save_cache (load_cache example_lib ex_world) ex_world) = Some ''{}''"
    by blast
  moreover from save_after_load [where w = "ex_world\<lparr>cache_file := Some ''not json''\<rparr>"
      and raw = "''not json''" and L = example_lib] b c
  have "cache_file (save_cache (load_cache example_lib (ex_world\<lparr>cache_file := Some ''not json''\<rparr>))
      (ex_world\<lparr>cache_file := Some ''not json''\<rparr>)) = Some ''{}''"
    by simp
  ultimately show ?thesis by blast
qed

text \<open>
  C9 as stated fails: loading from a missing cache file and saving at once creates the
  file; loading from a file that is not JSON and saving at once replaces its content by
  \<open>{}\<close>; and loading from a file that holds a mapping on one line and saving at once
  rewrites it over three lines.
\<close>

theorem save_after_load_changes_file:
  "cache_file ex_world = None \<and>
   cache_file (save_cache (load_cache example_lib ex_world) ex_world) = Some ''{}'' \<and>
   cache_file (save_cache (load_cache example_lib (ex_world\<lparr>cache_file := Some ''not json''\<rparr>))
      (ex_world\<lparr>cache_file := Some ''not json''\<rparr>)) = Some ''{}'' \<and>
   load_cache example_lib (ex_world\<lparr>cache_file := Some ex_compact_file\<rparr>) = [(''k'', ''v'')] \<and>
   cache_file (save_cache (load_cache example_lib (ex_world\<lparr>cache_file := Some ex_compact_file\<rparr>))
      (ex_world\<lparr>cache_file := Some ex_compact_file\<rparr>))
     = Some (json_dumps [(''k'', ''v'')]) \<and>
   json_dumps [(''k'', ''v'')] \<noteq> ex_compact_file"
  by code_simp

text \<open>
  C10. The empty pattern matches every non-empty subject, so a filter entry whose subject
  list contains the empty string matches every message with a non-empty subject whose
  sender matches the entry's sender.
\<close>

theorem empty_pattern_matches:
  "(S \<noteq> [] \<longrightarrow> match_subject S []) \<and>
   (S \<noteq> [] \<and> entry \<in> set fm \<and> [] \<in> set (snd entry) \<and> match_sender sndr (fst entry) \<longrightarrow>
      match_found (filters_loop sndr S fm init_filter_state))"
proof (intro conjI impI)
  assume "S \<noteq> []"
  then show "match_subject S []"
    by (simp add: match_subject_sublist)
next
  assume a: "S \<noteq> [] \<and> entry \<in> set fm \<and> [] \<in> set (snd entry) \<and> match_sender sndr (fst entry)"
  then have "match_subject S []"
    by (simp add: match_subject_sublist)
  with a show "match_found (filters_loop sndr S fm init_filter_state)"
    unfolding filters_loop_found by blast
qed

theorem empty_pattern_matches_witness:
  "match_subject ''Quarterly report'' [] \<and>
   match_found (filters_loop (Some ''Name <a@b.com>'') ''Quarterly report''
      [(''x@y.com'', [''test'']), (''a@b.com'', [''invoice'', []])] init_filter_state)"
proof -
  have a: "match_sender (Some ''Name <a@b.com>'') (fst (''a@b.com'', [''invoice'', []]))"
    by code_simp
  from empty_pattern_matches [where S = "''Quarterly report''"
      and entry = "(''a@b.com'', [''invoice'', []])"
      and fm = "[(''x@y.com'', [''test'']), (''a@b.com'', [''invoice'', []])]"
      and sndr = "Some ''Name <a@b.com>''"] a
  show ?thesis by simp
qed

end
